theory Spec2Isabelle
  imports Complex_Main "HOL-Library.Product_Lexorder"
begin

section \<open>Numeric helpers of the simulation wrapper\<close>

text \<open>
  The Python sources compute with NumPy floats. The embedding idealises them as exact
  rationals: every comparison, truncation and rounding below is the exact one, and the
  concrete inputs used further down are dyadic values on which binary floating point
  computes the same results.
\<close>

definition np_int :: "rat \<Rightarrow> int" where
  \<comment> \<open>\<open>np.int(x)\<close> and \<open>astype(int)\<close>: truncation towards zero.\<close>
  "np_int x = (if 0 \<le> x then \<lfloor>x\<rfloor> else \<lceil>x\<rceil>)"

definition np_linspace_int :: "rat \<Rightarrow> rat \<Rightarrow> nat \<Rightarrow> int list" where
  \<comment> \<open>\<open>np.linspace(start, stop, num, dtype='int')\<close> with the default endpoint.\<close>
  "np_linspace_int start stop num =
     (let dv = num - 1;
          delta = stop - start;
          y = map rat_of_nat [0..<num];
          y1 = (if 0 < dv
                then (let step = delta / rat_of_nat dv
                      in if step = 0 then map (\<lambda>v. v / rat_of_nat dv * delta) y
                         else map (\<lambda>v. v * step) y)
                else map (\<lambda>v. v * delta) y);
          y2 = map (\<lambda>v. v + start) y1;
          y3 = (if 1 < num then y2[num - 1 := stop] else y2)
      in map np_int y3)"

definition clip_index :: "nat \<Rightarrow> int \<Rightarrow> nat" where
  \<comment> \<open>A slice bound of Python: negative bounds count from the end, then clipped.\<close>
  "clip_index n i =
     (let j = (if i < 0 then i + int n else i)
      in if j < 0 then 0 else if int n < j then n else nat j)"

definition py_slice :: "'a list \<Rightarrow> int \<Rightarrow> int \<Rightarrow> 'a list" where
  \<comment> \<open>\<open>xs[a:b]\<close>\<close>
  "py_slice xs a b =
     (let n = length xs; lo = clip_index n a; hi = clip_index n b
      in take (hi - lo) (drop lo xs))"

fun is_prefix :: "string \<Rightarrow> string \<Rightarrow> bool" where
  "is_prefix [] s = True"
| "is_prefix (c # cs) [] = False"
| "is_prefix (c # cs) (d # ds) = (c = d \<and> is_prefix cs ds)"

fun str_contains :: "string \<Rightarrow> string \<Rightarrow> bool" where
  \<comment> \<open>\<open>sub in s\<close> on Python strings.\<close>
  "str_contains sub [] = is_prefix sub []"
| "str_contains sub (d # ds) = (is_prefix sub (d # ds) \<or> str_contains sub ds)"

section \<open>Season scheduling: \<open>SNSimulation.simuSeason\<close>\<close>

definition simuSeason_npp :: "string \<Rightarrow> nat \<Rightarrow> nat" where
  \<comment> \<open>The number of worker processes: one for the fast simulator.\<close>
  "simuSeason_npp simu_name nprocs =
     (if str_contains ''sn_fast'' simu_name then 1 else nprocs)"

definition simuSeason_batch :: "nat \<Rightarrow> 'a list \<Rightarrow> int list" where
  "simuSeason_batch npp gen_params =
     np_linspace_int 0 (rat_of_nat (length gen_params)) (npp + 1)"

definition simuSeason_shards :: "nat \<Rightarrow> 'a list \<Rightarrow> 'a list list" where
  \<comment> \<open>The slices \<open>gen_params[batch[i]:batch[i+1]]\<close> handed to the workers \<open>i = 0 .. npp-1\<close>.\<close>
  "simuSeason_shards npp gen_params =
     (let batch = simuSeason_batch npp gen_params
      in map (\<lambda>i. py_slice gen_params (batch ! i) (batch ! (i + 1))) [0..<npp])"

section \<open>Python values, dictionaries and string formatting\<close>

definition digit_char :: "int \<Rightarrow> char" where
  "digit_char d = char_of (48 + d)"

function str_digits :: "int \<Rightarrow> string" where
  \<comment> \<open>The decimal digits of a non-negative integer, most significant first.\<close>
  "str_digits n =
     (if n < 10 then [digit_char n] else str_digits (n div 10) @ [digit_char (n mod 10)])"
  by pat_completeness auto
termination
  by (relation "measure nat") auto

declare str_digits.simps [simp del]

definition str_int :: "int \<Rightarrow> string" where
  \<comment> \<open>\<open>str(i)\<close> for a Python integer.\<close>
  "str_int i = (if i < 0 then CHR ''-'' # str_digits (- i) else str_digits i)"

text \<open>
  The exceptions the Python code can raise on the paths modelled here, as values.
\<close>

datatype py_error = KeyError | IndexError | NameError | TypeError | ValueError

definition py_bind :: "py_error + 'a \<Rightarrow> ('a \<Rightarrow> py_error + 'b) \<Rightarrow> py_error + 'b" where
  "py_bind m f = (case m of Inl e \<Rightarrow> Inl e | Inr v \<Rightarrow> f v)"

text \<open>
  The values found in metadata dictionaries: integers, floats (idealised as rationals)
  and strings.
\<close>

datatype pyval = PInt int | PFloat rat | PStr string

text \<open>
  A Python \<open>dict\<close> is an association list in insertion order: assignment to a key that
  is present replaces the value in place, assignment to a new key appends.
\<close>

fun dict_get :: "('k \<times> 'v) list \<Rightarrow> 'k \<Rightarrow> py_error + 'v" where
  "dict_get [] k = Inl KeyError"
| "dict_get ((k', v) # d) k = (if k' = k then Inr v else dict_get d k)"

fun dict_set :: "('k \<times> 'v) list \<Rightarrow> 'k \<Rightarrow> 'v \<Rightarrow> ('k \<times> 'v) list" where
  "dict_set [] k v = [(k, v)]"
| "dict_set ((k', v') # d) k v =
     (if k' = k then (k, v) # d else (k', v') # dict_set d k v)"

fun dict_del :: "('k \<times> 'v) list \<Rightarrow> 'k \<Rightarrow> ('k \<times> 'v) list" where
  "dict_del [] k = []"
| "dict_del ((k', v') # d) k = (if k' = k then d else (k', v') # dict_del d k)"

definition dict_update :: "('k \<times> 'v) list \<Rightarrow> ('k \<times> 'v) list \<Rightarrow> ('k \<times> 'v) list" where
  \<comment> \<open>\<open>d.update(e)\<close>\<close>
  "dict_update d e = foldl (\<lambda>m (k, v). dict_set m k v) d e"

definition dict_zip :: "'k list \<Rightarrow> 'v list \<Rightarrow> ('k \<times> 'v) list" where
  \<comment> \<open>\<open>dict(zip(ks, vs))\<close>\<close>
  "dict_zip ks vs = dict_update [] (zip ks vs)"

definition dict_keys :: "('k \<times> 'v) list \<Rightarrow> 'k list" where
  "dict_keys d = map fst d"



definition py_str :: "(rat \<Rightarrow> string) \<Rightarrow> pyval \<Rightarrow> string" where
  "py_str fmt v = (case v of PInt i \<Rightarrow> str_int i | PFloat q \<Rightarrow> fmt q | PStr s \<Rightarrow> s)"

definition np_rint :: "rat \<Rightarrow> int" where
  \<comment> \<open>Rounding to the nearest integer, ties to the even one.\<close>
  "np_rint x =
     (let f = \<lfloor>x\<rfloor>; r = x - of_int f
      in if r < 1 / 2 then f else if 1 / 2 < r then f + 1 else if even f then f else f + 1)"

definition round_float :: "rat \<Rightarrow> nat \<Rightarrow> rat" where
  "round_float q decimals = rat_of_int (np_rint (q * 10 ^ decimals)) / 10 ^ decimals"

definition np_round :: "pyval \<Rightarrow> nat \<Rightarrow> py_error + pyval" where
  \<comment> \<open>\<open>np.round(v, decimals)\<close>: an integer is returned unchanged.\<close>
  "np_round v decimals =
     (case v of
        PInt i \<Rightarrow> Inr (PInt i)
      | PFloat q \<Rightarrow> Inr (PFloat (round_float q decimals))
      | PStr s \<Rightarrow> Inl TypeError)"

definition py_float_mul :: "rat \<Rightarrow> pyval \<Rightarrow> py_error + rat" where
  \<comment> \<open>The product of a float constant and a metadata value.\<close>
  "py_float_mul c v =
     (case v of
        PInt i \<Rightarrow> Inr (c * of_int i)
      | PFloat q \<Rightarrow> Inr (c * q)
      | PStr s \<Rightarrow> Inl TypeError)"

section \<open>The simulation wrapper: \<open>SNSimulation\<close>\<close>

text \<open>
  A light curve is an astropy table: its rows and its metadata dictionary. The rows are
  opaque to the wrapper, which only counts them.
\<close>

record 'r lc_table =
  lc_rows :: "'r list"
  lc_meta :: "(string \<times> pyval) list"

text \<open>
  An output file holds named entries: light curves under \<open>lc_<index>\<close> and summary tables
  under \<open>summary_<label>\<close>. Writing with \<open>append=True\<close> adds an entry to the file, creating
  the file when it does not exist.
\<close>

datatype 'r entry =
  LCEntry string "'r lc_table"
| SummaryEntry string "(string \<times> pyval list) list"

record 'r wrapper =
  SNID :: "(nat \<times> int) list"
  simu_out :: "(nat \<times> string) list"
  lc_out :: "(nat \<times> string) list"
  sn_meta :: "(nat \<times> (string \<times> pyval list) list) list"
  fieldname :: string
  fieldid :: int
  area :: rat
  index_hdf5 :: int
  files :: "(string \<times> 'r entry list) list"

definition file_append :: "(string \<times> 'r entry list) list \<Rightarrow> string \<Rightarrow> 'r entry
    \<Rightarrow> (string \<times> 'r entry list) list" where
  "file_append fs name e =
     (case dict_get fs name of
        Inl _ \<Rightarrow> dict_set fs name [e]
      | Inr es \<Rightarrow> dict_set fs name (es @ [e]))"

definition prepareSave :: "string \<Rightarrow> string \<Rightarrow> nat \<Rightarrow> 'r wrapper \<Rightarrow> 'r wrapper" where
  \<comment> \<open>Names the two output files of the process tag, removes them when they exist, seeds
      the identity counter and empties the metadata store.\<close>
  "prepareSave outdir prodid iproc st =
     (let so = outdir @ ''/Simu_'' @ prodid @ ''_'' @ str_int (int iproc) @ ''.hdf5'';
          lo = outdir @ ''/LC_'' @ prodid @ ''_'' @ str_int (int iproc) @ ''.hdf5''
      in st\<lparr>simu_out := dict_set (simu_out st) iproc so,
            lc_out := dict_set (lc_out st) iproc lo,
            files := dict_del (dict_del (files st) so) lo,
            SNID := dict_set (SNID st) iproc (10 ^ iproc),
            sn_meta := dict_set (sn_meta st) iproc []\<rparr>)"

definition writeLC_epsilon :: "(string \<times> pyval) list \<Rightarrow> py_error + int" where
  \<comment> \<open>Lines 447 to 450 of \<open>writeLC\<close>.\<close>
  "writeLC_epsilon m =
     py_bind (dict_get m ''epsilon_x0'') (\<lambda>v0.
     py_bind (py_float_mul (1000 * 100000000) v0) (\<lambda>f0.
     py_bind (dict_get m ''epsilon_x1'') (\<lambda>v1.
     py_bind (py_float_mul (100 * 100000000) v1) (\<lambda>f1.
     py_bind (dict_get m ''epsilon_color'') (\<lambda>v2.
     py_bind (py_float_mul (10 * 100000000) v2) (\<lambda>f2.
     py_bind (dict_get m ''epsilon_daymax'') (\<lambda>v3.
     py_bind (py_float_mul (1 * 100000000) v3) (\<lambda>f3.
       Inr (np_int f0 + np_int f1 + np_int f2 + np_int f3)))))))))"

definition setIndex :: "(rat \<Rightarrow> string) \<Rightarrow> pyval \<Rightarrow> pyval \<Rightarrow> pyval \<Rightarrow> pyval \<Rightarrow> pyval \<Rightarrow> pyval
    \<Rightarrow> pyval \<Rightarrow> string" where
  "setIndex fmt healpixID x1 color z daymax season epsilon =
     py_str fmt healpixID @ ''_'' @ py_str fmt x1 @ ''_'' @ py_str fmt color @ ''_''
     @ py_str fmt z @ ''_'' @ py_str fmt daymax @ ''_'' @ py_str fmt season @ ''_''
     @ py_str fmt epsilon"

definition writeLC_index :: "(rat \<Rightarrow> string) \<Rightarrow> (string \<times> pyval) list \<Rightarrow> int
    \<Rightarrow> py_error + string" where
  \<comment> \<open>Lines 447 to 457 of \<open>writeLC\<close>: the epsilon code, then the index.\<close>
  "writeLC_index fmt m season =
     py_bind (writeLC_epsilon m) (\<lambda>epsilon.
     py_bind (dict_get m ''healpixID'') (\<lambda>healpixID.
     py_bind (dict_get m ''x1'') (\<lambda>x1.
     py_bind (dict_get m ''color'') (\<lambda>color.
     py_bind (dict_get m ''z'') (\<lambda>z.
     py_bind (np_round z 3) (\<lambda>zr.
     py_bind (dict_get m ''daymax'') (\<lambda>daymax.
     py_bind (np_round daymax 3) (\<lambda>dr.
       Inr (setIndex fmt healpixID x1 color zr dr (PInt season) (PInt epsilon))))))))))"

definition metanames :: "string list" where
  "metanames = [''SNID'', ''index_hdf5'', ''season'', ''fieldname'', ''fieldid'',
                ''n_lc_points'', ''area'']"

definition writeLC_metadict :: "int \<Rightarrow> string \<Rightarrow> int \<Rightarrow> 'r lc_table \<Rightarrow> 'r wrapper
    \<Rightarrow> (string \<times> pyval) list" where
  \<comment> \<open>The bookkeeping fields, then \<open>metadict.update(lc.meta)\<close>.\<close>
  "writeLC_metadict snid index season lc st =
     dict_update
       (dict_zip metanames
                 [PInt snid, PStr index, PInt season, PStr (fieldname st), PInt (fieldid st),
                  PInt (int (length (lc_rows lc))), PFloat (area st)])
       (lc_meta lc)"

definition init_meta :: "(string \<times> pyval) list \<Rightarrow> (string \<times> pyval list) list" where
  \<comment> \<open>\<open>for key in metadict.keys(): meta_lc[key] = [metadict[key]]\<close> on an empty \<open>meta_lc\<close>\<close>
  "init_meta items = foldl (\<lambda>m (k, v). dict_set m k [v]) [] items"

fun extend_meta :: "(string \<times> pyval) list \<Rightarrow> (string \<times> pyval list) list
    \<Rightarrow> py_error + (string \<times> pyval list) list" where
  \<comment> \<open>\<open>for key in metadict.keys(): meta_lc[key].extend([metadict[key]])\<close>\<close>
  "extend_meta [] meta_lc = Inr meta_lc"
| "extend_meta ((k, v) # items) meta_lc =
     (case dict_get meta_lc k of
        Inl e \<Rightarrow> Inl e
      | Inr vs \<Rightarrow> extend_meta items (dict_set meta_lc k (vs @ [v])))"

definition writeLC :: "(rat \<Rightarrow> string) \<Rightarrow> int \<Rightarrow> 'r lc_table \<Rightarrow> int \<Rightarrow> nat
    \<Rightarrow> (string \<times> pyval list) list \<Rightarrow> 'r wrapper
    \<Rightarrow> py_error + ('r wrapper \<times> (string \<times> pyval list) list)" where
  "writeLC fmt snid lc season iproc meta_lc st =
     py_bind (writeLC_index fmt (lc_meta lc) season) (\<lambda>index.
     py_bind (dict_get (lc_out st) iproc) (\<lambda>fname.
       let st' = st\<lparr>files := file_append (files st) fname (LCEntry (''lc_'' @ index) lc)\<rparr>;
           metadict = writeLC_metadict snid index season lc st
       in py_bind (if meta_lc = [] then Inr (init_meta metadict)
                   else extend_meta metadict meta_lc) (\<lambda>m. Inr (st', m))))"

fun dump :: "(rat \<Rightarrow> string) \<Rightarrow> 'r lc_table list \<Rightarrow> int \<Rightarrow> nat
    \<Rightarrow> (string \<times> pyval list) list \<Rightarrow> 'r wrapper
    \<Rightarrow> py_error + ('r wrapper \<times> (string \<times> pyval list) list)" where
  "dump fmt [] season j meta_lc st = Inr (st, meta_lc)"
| "dump fmt (lc # list_lc) season j meta_lc st =
     (case dict_get (SNID st) j of
        Inl e \<Rightarrow> Inl e
      | Inr c \<Rightarrow>
          (let st1 = st\<lparr>SNID := dict_set (SNID st) j (c + 1)\<rparr>
           in case writeLC fmt (c + 1) lc season j meta_lc st1 of
                Inl e \<Rightarrow> Inl e
              | Inr (st2, m2) \<Rightarrow> dump fmt list_lc season j m2 st2))"

text \<open>
  \<open>simuLoop\<close>, the body of one worker. The call of the backend is a parameter: \<open>simuLCs\<close>
  for one object of the physics simulator, \<open>simuLCs_fast\<close> for the whole shard of the fast
  one. The state returned is the worker's own copy of the wrapper.
\<close>

fun simuLoop_each :: "(rat \<Rightarrow> string) \<Rightarrow> ('g \<Rightarrow> py_error + 'r lc_table list) \<Rightarrow> 'g list
    \<Rightarrow> int \<Rightarrow> nat \<Rightarrow> 'r lc_table list \<Rightarrow> (string \<times> pyval list) list \<Rightarrow> 'r wrapper
    \<Rightarrow> py_error + ('r lc_table list \<times> (string \<times> pyval list) list \<times> 'r wrapper)" where
  "simuLoop_each fmt simuLCs [] season iproc list_lc meta_lc st = Inr (list_lc, meta_lc, st)"
| "simuLoop_each fmt simuLCs (genpar # gen_params) season iproc list_lc meta_lc st =
     (case simuLCs genpar of
        Inl e \<Rightarrow> Inl e
      | Inr lc \<Rightarrow>
          (let list1 = (if lc \<noteq> [] then list_lc @ lc else list_lc)
           in if 20 \<le> length list1
              then (case dump fmt list1 season iproc meta_lc st of
                      Inl e \<Rightarrow> Inl e
                    | Inr (st', m') \<Rightarrow>
                        simuLoop_each fmt simuLCs gen_params season iproc [] m' st')
              else simuLoop_each fmt simuLCs gen_params season iproc list1 meta_lc st))"

definition simuLoop :: "(rat \<Rightarrow> string) \<Rightarrow> string \<Rightarrow> ('g \<Rightarrow> py_error + 'r lc_table list)
    \<Rightarrow> ('g list \<Rightarrow> py_error + 'r lc_table list) \<Rightarrow> 'g list \<Rightarrow> int \<Rightarrow> nat \<Rightarrow> 'r wrapper
    \<Rightarrow> py_error + ((string \<times> pyval list) list \<times> 'r wrapper)" where
  "simuLoop fmt simu_name simuLCs simuLCs_fast gen_params season iproc st =
     py_bind (if \<not> str_contains ''sn_fast'' simu_name
              then simuLoop_each fmt simuLCs gen_params season iproc [] [] st
              else py_bind (simuLCs_fast gen_params) (\<lambda>list_lc. Inr (list_lc, [], st)))
       (\<lambda>(list_lc, meta_lc, st1).
          if 0 < length list_lc
          then py_bind (dump fmt list_lc season iproc meta_lc st1) (\<lambda>(st2, m2). Inr (m2, st2))
          else Inr (meta_lc, st1))"

section \<open>Generation parameters as the storage index sees them\<close>

text \<open>
  The parameters of one simulated object that enter its storage index: the pixel, the
  stretch, the colour, the redshift, the day of maximum and the four perturbations. A
  metadata dictionary carries them when it holds each one under its key, the pixel as an
  integer and the others as floats.
\<close>

record gen_params =
  gp_healpixID :: int
  gp_x1 :: rat
  gp_color :: rat
  gp_z :: rat
  gp_daymax :: rat
  gp_epsilon_x0 :: rat
  gp_epsilon_x1 :: rat
  gp_epsilon_color :: rat
  gp_epsilon_daymax :: rat










section \<open>Reading the effects of a flush\<close>

definition acc_vals :: "('k \<times> 'v list) list \<Rightarrow> 'k \<Rightarrow> 'v list" where
  \<comment> \<open>The list under a key of a metadata accumulator, empty when the key is absent.\<close>
  "acc_vals acc k = (case dict_get acc k of Inl _ \<Rightarrow> [] | Inr vs \<Rightarrow> vs)"




section \<open>Observations and the season loop of \<open>SNSimulation.run\<close>\<close>

text \<open>
  One survey visit, with the columns the modelled code reads. An array of observations
  also knows the names of its columns (\<open>obs.dtype.names\<close>): the pixel columns are present
  only when the wrapper has added them.
\<close>

record visit =
  v_mjd :: rat
  v_band :: string
  v_m5 :: rat
  v_exptime :: rat
  v_nexp :: int
  v_season :: int
  v_RA :: rat
  v_Dec :: rat
  v_obsid :: int
  v_healpixID :: int
  v_pixRA :: rat
  v_pixDec :: rat

fun select_non_u :: "visit list \<Rightarrow> py_error + visit list" where
  \<comment> \<open>\<open>[i for i, val in enumerate(obs_season[filterCol]) if val[-1] != 'u']\<close>, as the rows
      selected; \<open>val[-1]\<close> raises on an empty string.\<close>
  "select_non_u [] = Inr []"
| "select_non_u (v # vs) =
     (if v_band v = [] then Inl IndexError
      else case select_non_u vs of
             Inl e \<Rightarrow> Inl e
           | Inr sel \<Rightarrow> Inr (if last (v_band v) \<noteq> CHR ''u'' then v # sel else sel))"

definition run_season :: "(visit list \<Rightarrow> int \<Rightarrow> nat \<Rightarrow> 'r wrapper \<Rightarrow> py_error + 'r wrapper)
    \<Rightarrow> visit list \<Rightarrow> nat \<Rightarrow> int \<Rightarrow> 'r wrapper \<Rightarrow> py_error + 'r wrapper" where
  \<comment> \<open>The body of \<open>for seas in seasons\<close>; \<open>simuSeason\<close> is the call it may make.\<close>
  "run_season simuSeason obs iproc seas st =
     (let st1 = st\<lparr>index_hdf5 := index_hdf5 st + 10000 * (seas - 1)\<rparr>;
          obs_season = filter (\<lambda>v. v_season v = seas) obs
      in case select_non_u obs_season of
           Inl e \<Rightarrow> Inl e
         | Inr sel \<Rightarrow> if 5 \<le> length sel then simuSeason sel seas iproc st1 else Inr st1)"

fun run_seasons :: "(visit list \<Rightarrow> int \<Rightarrow> nat \<Rightarrow> 'r wrapper \<Rightarrow> py_error + 'r wrapper)
    \<Rightarrow> visit list \<Rightarrow> nat \<Rightarrow> int list \<Rightarrow> 'r wrapper \<Rightarrow> py_error + 'r wrapper" where
  "run_seasons simuSeason obs iproc [] st = Inr st"
| "run_seasons simuSeason obs iproc (seas # seasons) st =
     (case run_season simuSeason obs iproc seas st of
        Inl e \<Rightarrow> Inl e
      | Inr st' \<Rightarrow> run_seasons simuSeason obs iproc seasons st')"

section \<open>Collecting and merging the workers' metadata in \<open>simuSeason\<close>\<close>

definition simuSeason_collect :: "(nat \<times> (string \<times> 'v list) list) list list \<Rightarrow> nat
    \<Rightarrow> (nat \<times> (string \<times> 'v list) list) list option" where
  \<comment> \<open>\<open>npp\<close> times \<open>resultdict.update(result_queue.get())\<close>, on the messages in their order
      of arrival. With fewer than \<open>npp\<close> messages the parent waits for ever: \<open>None\<close>.\<close>
  "simuSeason_collect msgs npp =
     (if length msgs < npp then None else Some (foldl dict_update [] (take npp msgs)))"

fun merge_items :: "(string \<times> 'v list) list \<Rightarrow> (string \<times> 'v list) list
    \<Rightarrow> py_error + (string \<times> 'v list) list" where
  \<comment> \<open>\<open>for key in metadict.keys(): self.sn_meta[iproc][key] += metadict[key]\<close>\<close>
  "merge_items [] store = Inr store"
| "merge_items ((k, vs) # items) store =
     (case dict_get store k of
        Inl e \<Rightarrow> Inl e
      | Inr old \<Rightarrow> merge_items items (dict_set store k (old @ vs)))"

fun simuSeason_merge :: "nat list \<Rightarrow> (nat \<times> (string \<times> 'v list) list) list
    \<Rightarrow> (string \<times> 'v list) list \<Rightarrow> py_error + (string \<times> 'v list) list" where
  \<comment> \<open>\<open>for j in range(npp)\<close>, on the list of the values of \<open>j\<close>; the last argument is
      \<open>self.sn_meta[iproc]\<close>.\<close>
  "simuSeason_merge [] resultdict store = Inr store"
| "simuSeason_merge (j # js) resultdict store =
     (case dict_get resultdict j of
        Inl e \<Rightarrow> Inl e
      | Inr metadict \<Rightarrow>
          if store = [] then simuSeason_merge js resultdict metadict
          else (case merge_items metadict store of
                  Inl e \<Rightarrow> Inl e
                | Inr store' \<Rightarrow> simuSeason_merge js resultdict store'))"

definition simuSeason_gather :: "(nat \<times> (string \<times> 'v list) list) list list \<Rightarrow> nat
    \<Rightarrow> (string \<times> 'v list) list \<Rightarrow> (py_error + (string \<times> 'v list) list) option" where
  \<comment> \<open>Lines 395 to 409: collect the \<open>npp\<close> messages, then merge in index order.\<close>
  "simuSeason_gather msgs npp store =
     (case simuSeason_collect msgs npp of
        None \<Rightarrow> None
      | Some resultdict \<Rightarrow> Some (simuSeason_merge [0..<npp] resultdict store))"

section \<open>The physics simulator: \<open>sn_cosmo.SN\<close>\<close>

text \<open>
  The simulator object after \<open>__init__\<close>: the identity, the amplitude and the luminosity
  distance it has computed, the survey area and the parameters of the object.
\<close>

record sn_cosmo =
  sn_SNID :: int
  sn_X0 :: rat
  sn_dL :: rat
  sn_area :: rat
  sn_x1 :: rat
  sn_color :: rat
  sn_daymax :: rat
  sn_z :: rat
  sn_epsilon_x0 :: rat
  sn_epsilon_x1 :: rat
  sn_epsilon_color :: rat
  sn_epsilon_daymax :: rat

text \<open>
  What \<open>__call__\<close> calls in other modules: the phase and wavelength selection \<open>cutoff\<close> of
  the base class, the flux of the spectral model at a time integrated through the
  throughput of a band, the decimal logarithm, the photometry computed on the rows
  afterwards, and the processing time read from the timer.
\<close>

record 'r physics_env =
  env_cutoff :: "sn_cosmo \<Rightarrow> visit list \<Rightarrow> visit list"
  env_int_flux :: "rat \<Rightarrow> string \<Rightarrow> rat"
  env_log10 :: "rat \<Rightarrow> rat"
  env_photometry :: "(visit \<times> rat \<times> rat) list \<Rightarrow> 'r list"
  env_ptime :: rat

definition np_mean :: "rat list \<Rightarrow> rat" where
  "np_mean xs = sum_list xs / rat_of_nat (length xs)"

definition unique_first :: "'a::linorder list \<Rightarrow> py_error + 'a" where
  \<comment> \<open>\<open>np.unique(xs)[0]\<close>\<close>
  "unique_first xs = (case sort (remdups xs) of [] \<Rightarrow> Inl IndexError | x # _ \<Rightarrow> Inr x)"

definition unique_item :: "'a::linorder list \<Rightarrow> py_error + 'a" where
  \<comment> \<open>\<open>np.unique(xs).item()\<close>: only an array of one element converts to a scalar.\<close>
  "unique_item xs = (case sort (remdups xs) of [x] \<Rightarrow> Inr x | _ \<Rightarrow> Inl ValueError)"

record pix =
  pix_healpixID :: pyval
  pix_pixRA :: pyval
  pix_pixDec :: pyval

definition names_meta :: "string list" where
  "names_meta = [''SNID'', ''RA'', ''Dec'', ''x0'', ''epsilon_x0'', ''x1'', ''epsilon_x1'',
                 ''color'', ''epsilon_color'', ''daymax'', ''epsilon_daymax'', ''z'',
                 ''survey_area'', ''healpixID'', ''pixRA'', ''pixDec'', ''season'', ''dL'',
                 ''ptime'', ''status'']"

definition metadata :: "sn_cosmo \<Rightarrow> rat \<Rightarrow> rat \<Rightarrow> pix \<Rightarrow> rat \<Rightarrow> int \<Rightarrow> rat \<Rightarrow> int
    \<Rightarrow> (string \<times> pyval) list" where
  "metadata sn ra dec px survey_area season ptime status =
     dict_zip names_meta
       [PInt (sn_SNID sn), PFloat ra, PFloat dec,
        PFloat (sn_X0 sn), PFloat (sn_epsilon_x0 sn),
        PFloat (sn_x1 sn), PFloat (sn_epsilon_x1 sn),
        PFloat (sn_color sn), PFloat (sn_epsilon_color sn),
        PFloat (sn_daymax sn), PFloat (sn_epsilon_daymax sn),
        PFloat (sn_z sn), PFloat survey_area,
        pix_healpixID px, pix_pixRA px, pix_pixDec px,
        PInt season, PFloat (sn_dL sn), PFloat ptime, PInt status]"

definition nosim :: "sn_cosmo \<Rightarrow> rat \<Rightarrow> rat \<Rightarrow> pix \<Rightarrow> rat \<Rightarrow> int \<Rightarrow> rat \<Rightarrow> int
    \<Rightarrow> 'r lc_table" where
  \<comment> \<open>An empty table that carries the metadata only.\<close>
  "nosim sn ra dec px survey_area season ptime status =
     \<lparr>lc_rows = [], lc_meta = metadata sn ra dec px survey_area season ptime status\<rparr>"

definition call_pix :: "string list \<Rightarrow> visit list \<Rightarrow> py_error + pix" where
  \<comment> \<open>The pixel of the observations: the first unique value of a pixel column when the
      array has it, else the mean of the column that stands in for it.\<close>
  "call_pix names obs =
     py_bind (if ''healpixID'' \<in> set names
              then py_bind (unique_first (map v_healpixID obs)) (\<lambda>h. Inr (PInt h))
              else Inr (PFloat (np_mean (map (\<lambda>v. rat_of_int (v_obsid v)) obs)))) (\<lambda>h.
     py_bind (if ''pixRA'' \<in> set names
              then py_bind (unique_first (map v_pixRA obs)) (\<lambda>r. Inr (PFloat r))
              else Inr (PFloat (np_mean (map v_RA obs)))) (\<lambda>r.
     py_bind (if ''pixDec'' \<in> set names
              then py_bind (unique_first (map v_pixDec obs)) (\<lambda>d. Inr (PFloat d))
              else Inr (PFloat (np_mean (map v_Dec obs)))) (\<lambda>d.
       Inr \<lparr>pix_healpixID = h, pix_pixRA = r, pix_pixDec = d\<rparr>)))"

text \<open>
  The data frame \<open>lcdf\<close> has one row for each selected visit, with the five columns that
  \<open>outvals\<close> always names (the columns it adds when the array has them are not read again
  on the paths modelled); it is built before the selected visits are sorted by time.
\<close>

record lcdf_row =
  df_m5 :: rat
  df_mjd :: rat
  df_exptime :: rat
  df_nexp :: int
  df_band :: string

definition DataFrame :: "visit list \<Rightarrow> lcdf_row list" where
  "DataFrame obs =
     map (\<lambda>v. \<lparr>df_m5 = v_m5 v, df_mjd = v_mjd v, df_exptime = v_exptime v,
                df_nexp = v_nexp v, df_band = v_band v\<rparr>) obs"

definition clamp_fluxes :: "rat list \<Rightarrow> rat list" where
  \<comment> \<open>\<open>int_fluxes[int_fluxes < 0.] = 1.e-5\<close>\<close>
  "clamp_fluxes int_fluxes = map (\<lambda>f. if f < 0 then 1 / 100000 else f) int_fluxes"

definition log_arguments :: "rat list \<Rightarrow> rat list" where
  \<comment> \<open>The arguments of the logarithm in \<open>-2.5 * np.log10(lcdf['flux'] / 3631.0)\<close>.\<close>
  "log_arguments fluxes = map (\<lambda>f. f / 3631) fluxes"

definition cosmo_call :: "'r physics_env \<Rightarrow> sn_cosmo \<Rightarrow> string list \<Rightarrow> visit list
    \<Rightarrow> py_error + 'r lc_table list" where
  \<comment> \<open>\<open>SN.__call__\<close>; \<open>names\<close> are the column names of the array \<open>obs\<close>.\<close>
  "cosmo_call env sn names obs =
     (let ra = np_mean (map v_RA obs);
          dec = np_mean (map v_Dec obs);
          survey_area = sn_area sn
      in py_bind (unique_first (map v_season obs)) (\<lambda>season.
         py_bind (call_pix names obs) (\<lambda>px.
           let obs1 = env_cutoff env sn obs;
               lcdf = DataFrame obs1
           in if length lcdf = 0
              then Inr [nosim sn ra dec px survey_area season (env_ptime env) (- 1)]
              else if length obs1 = 0 then Inl NameError
              else
                (let obs2 = sort_key v_mjd obs1;
                     int_fluxes = map (\<lambda>(ob, row). env_int_flux env (v_mjd ob) (df_band row))
                                      (zip obs2 lcdf);
                     fluxes = clamp_fluxes int_fluxes
                 in if length lcdf = 0
                    then Inr [nosim sn ra dec px survey_area season (env_ptime env) (- 1)]
                    else
                      (let mags = map (\<lambda>a. - (5 / 2) * env_log10 env a) (log_arguments fluxes)
                       in Inr [\<lparr>lc_rows = env_photometry env (zip obs1 (zip fluxes mags)),
                                 lc_meta = metadata sn ra dec px survey_area season
                                             (env_ptime env) 1\<rparr>])))))"

section \<open>The fast simulator: \<open>sn_fast.SN\<close>\<close>

record fast_genpar =
  g_z :: rat
  g_x1 :: rat
  g_color :: rat
  g_daymax :: rat
  g_epsilon_x0 :: rat
  g_epsilon_x1 :: rat
  g_epsilon_color :: rat
  g_epsilon_daymax :: rat

text \<open>A row of the combined result of \<open>LCfast\<close>: its grouping columns and the rest.\<close>

record 'd fast_row =
  r_z :: rat
  r_daymax :: rat
  r_data :: 'd

definition fast_init :: "fast_genpar list \<Rightarrow> py_error + (string \<times> pyval) list" where
  \<comment> \<open>The part of \<open>__init__\<close> that builds \<open>premeta\<close>.\<close>
  "fast_init gen =
     py_bind (unique_item (map g_x1 gen)) (\<lambda>x1.
     py_bind (unique_item (map g_color gen)) (\<lambda>color.
       let premeta = dict_zip [''x1'', ''color'', ''x0''] [PFloat x1, PFloat color, PFloat (- 1)]
       in py_bind (unique_item (map g_epsilon_x0 gen)) (\<lambda>e0.
          py_bind (unique_item (map g_epsilon_x1 gen)) (\<lambda>e1.
          py_bind (unique_item (map g_epsilon_color gen)) (\<lambda>e2.
          py_bind (unique_item (map g_epsilon_daymax gen)) (\<lambda>e3.
            Inr (dict_update (dict_update (dict_update (dict_update premeta
                   (dict_zip [''epsilon_x0''] [PFloat e0]))
                   (dict_zip [''epsilon_x1''] [PFloat e1]))
                   (dict_zip [''epsilon_color''] [PFloat e2]))
                   (dict_zip [''epsilon_daymax''] [PFloat e3]))))))))"

definition transform :: "(string \<times> pyval) list \<Rightarrow> 'd fast_row list \<Rightarrow> 'd fast_row lc_table list"
  where
  \<comment> \<open>\<open>tab.groupby(['z', 'daymax'])\<close>: the groups in the order of their keys, each with
      its rows in the order of the table.\<close>
  "transform premeta tab =
     map (\<lambda>name.
            \<lparr>lc_rows = filter (\<lambda>r. (r_z r, r_daymax r) = name) tab,
             lc_meta = dict_update
                         (dict_zip [''z'', ''daymax''] [PFloat (fst name), PFloat (snd name)])
                         premeta\<rparr>)
         (sort (remdups (map (\<lambda>r. (r_z r, r_daymax r)) tab)))"

definition fast_call :: "(visit list \<Rightarrow> fast_genpar list \<Rightarrow> 'd fast_row list)
    \<Rightarrow> fast_genpar list \<Rightarrow> visit list \<Rightarrow> py_error + 'd fast_row lc_table list" where
  \<comment> \<open>The simulator built on the shard \<open>gen\<close> and called on \<open>obs\<close>; \<open>lcFast\<close> is the
      interpolation on the reference light curves.\<close>
  "fast_call lcFast gen obs =
     py_bind (fast_init gen) (\<lambda>premeta0.
       let RA = np_mean (map v_RA obs);
           Dec = np_mean (map v_Dec obs)
       in py_bind (unique_item (map v_pixRA obs)) (\<lambda>pixRA.
          py_bind (unique_item (map v_pixDec obs)) (\<lambda>pixDec.
          py_bind (unique_item (map v_healpixID obs)) (\<lambda>pixID.
            let premeta = dict_update premeta0
                  (dict_zip [''RA'', ''Dec'', ''pixRA'', ''pixDec'', ''healpixID'', ''dL'']
                            [PFloat RA, PFloat Dec, PFloat pixRA, PFloat pixDec, PInt pixID,
                             PInt (- 1)])
            in Inr (transform premeta (lcFast obs gen))))))"

definition one_value :: "'a list \<Rightarrow> bool" where
  \<comment> \<open>The column holds exactly one distinct value.\<close>
  "one_value xs \<longleftrightarrow> length (remdups xs) = 1"

definition shard_uniform :: "fast_genpar list \<Rightarrow> visit list \<Rightarrow> bool" where
  \<comment> \<open>What the fast simulator requires of its shard and of the observations: one stretch,
      one colour, one value of each perturbation, one pixel.\<close>
  "shard_uniform gen obs \<longleftrightarrow>
     one_value (map g_x1 gen) \<and> one_value (map g_color gen) \<and>
     one_value (map g_epsilon_x0 gen) \<and> one_value (map g_epsilon_x1 gen) \<and>
     one_value (map g_epsilon_color gen) \<and> one_value (map g_epsilon_daymax gen) \<and>
     one_value (map v_pixRA obs) \<and> one_value (map v_pixDec obs) \<and>
     one_value (map v_healpixID obs)"

definition premeta_of :: "fast_genpar list \<Rightarrow> visit list \<Rightarrow> (string \<times> pyval) list" where
  \<comment> \<open>The parameters shared by the shard, as \<open>premeta\<close> holds them when the simulator is
      called.\<close>
  "premeta_of gen obs =
     [(''x1'', PFloat (g_x1 (hd gen))), (''color'', PFloat (g_color (hd gen))),
      (''x0'', PFloat (- 1)),
      (''epsilon_x0'', PFloat (g_epsilon_x0 (hd gen))),
      (''epsilon_x1'', PFloat (g_epsilon_x1 (hd gen))),
      (''epsilon_color'', PFloat (g_epsilon_color (hd gen))),
      (''epsilon_daymax'', PFloat (g_epsilon_daymax (hd gen))),
      (''RA'', PFloat (np_mean (map v_RA obs))), (''Dec'', PFloat (np_mean (map v_Dec obs))),
      (''pixRA'', PFloat (v_pixRA (hd obs))), (''pixDec'', PFloat (v_pixDec (hd obs))),
      (''healpixID'', PInt (v_healpixID (hd obs))), (''dL'', PInt (- 1))]"

definition group_keys :: "'d fast_row list \<Rightarrow> (rat \<times> rat) list" where
  \<comment> \<open>The distinct (z, daymax) pairs of a combined result, in increasing order.\<close>
  "group_keys tab = sort (remdups (map (\<lambda>r. (r_z r, r_daymax r)) tab))"

definition table_rows :: "py_error + 'r lc_table list \<Rightarrow> 'r list list" where
  \<comment> \<open>The rows of the tables returned by a call, none when the call failed.\<close>
  "table_rows r = (case r of Inl e \<Rightarrow> [] | Inr ts \<Rightarrow> map lc_rows ts)"

section \<open>Worked inputs\<close>

definition ex_wrapper0 :: "unit wrapper" where
  "ex_wrapper0 =
     \<lparr>SNID = [], simu_out = [], lc_out = [], sn_meta = [], fieldname = ''unknown'',
      fieldid = 0, area = 1, index_hdf5 = 100, files = []\<rparr>"

definition ex_prepared :: "unit wrapper" where
  "ex_prepared = prepareSave ''Output_Simu'' ''prod'' 1 ex_wrapper0"

definition ex_sn :: sn_cosmo where
  "ex_sn =
     \<lparr>sn_SNID = 100, sn_X0 = 1 / 1000, sn_dL = 1500, sn_area = 1, sn_x1 = 0, sn_color = 0,
      sn_daymax = 60000, sn_z = 3 / 10, sn_epsilon_x0 = 0, sn_epsilon_x1 = 0,
      sn_epsilon_color = 0, sn_epsilon_daymax = 0\<rparr>"







definition ex_visit :: "rat \<Rightarrow> string \<Rightarrow> int \<Rightarrow> visit" where
  \<comment> \<open>A visit at a time, in a band, of a season, on pixel 10.\<close>
  "ex_visit t b s =
     \<lparr>v_mjd = t, v_band = b, v_m5 = 24, v_exptime = 30, v_nexp = 1, v_season = s, v_RA = 0,
      v_Dec = 0, v_obsid = 1, v_healpixID = 10, v_pixRA = 0, v_pixDec = 0\<rparr>"

definition ex_names :: "string list" where
  "ex_names = [''observationStartMJD'', ''filter'', ''fiveSigmaDepth'', ''season'',
               ''healpixID'', ''pixRA'', ''pixDec'']"

definition ex_obs_short :: "visit list" where
  \<comment> \<open>Season 1 has seven visits, three of them in the u band; season 2 has six.\<close>
  "ex_obs_short =
     [ex_visit 59990 ''u'' 1, ex_visit 59991 ''g'' 1, ex_visit 59992 ''u'' 1,
      ex_visit 59993 ''r'' 1, ex_visit 59994 ''u'' 1, ex_visit 59995 ''i'' 1,
      ex_visit 59996 ''z'' 1,
      ex_visit 60360 ''g'' 2, ex_visit 60361 ''g'' 2, ex_visit 60362 ''r'' 2,
      ex_visit 60363 ''r'' 2, ex_visit 60364 ''i'' 2, ex_visit 60365 ''i'' 2]"

definition ex_obs :: "visit list" where
  \<comment> \<open>Six visits of season 1, two in each of three bands.\<close>
  "ex_obs =
     [ex_visit 59995 ''g'' 1, ex_visit 59996 ''r'' 1, ex_visit 59997 ''i'' 1,
      ex_visit 60005 ''g'' 1, ex_visit 60006 ''r'' 1, ex_visit 60007 ''i'' 1]"

definition ex_env :: "(rat \<Rightarrow> string \<Rightarrow> rat) \<Rightarrow> (rat \<times> rat) physics_env" where
  \<comment> \<open>An environment that selects every visit and keeps, for each row, the flux and the
      argument of the logarithm; the integrated flux is the parameter.\<close>
  "ex_env int_flux =
     \<lparr>env_cutoff = (\<lambda>sn obs. obs),
      env_int_flux = int_flux,
      env_log10 = (\<lambda>a. a),
      env_photometry = (\<lambda>rows. map (\<lambda>(v, f, m). (f, - m / (5 / 2))) rows),
      env_ptime = 0\<rparr>"


definition ex_gen :: "fast_genpar list" where
  "ex_gen =
     [\<lparr>g_z = 1 / 10, g_x1 = - 2, g_color = 1 / 5, g_daymax = 60000, g_epsilon_x0 = 0,
       g_epsilon_x1 = 0, g_epsilon_color = 0, g_epsilon_daymax = 0\<rparr>,
      \<lparr>g_z = 1 / 5, g_x1 = - 2, g_color = 1 / 5, g_daymax = 60000, g_epsilon_x0 = 0,
       g_epsilon_x1 = 0, g_epsilon_color = 0, g_epsilon_daymax = 0\<rparr>]"

definition ex_lcFast :: "visit list \<Rightarrow> fast_genpar list \<Rightarrow> nat fast_row list" where
  \<comment> \<open>A combined result of three rows for two (z, daymax) pairs.\<close>
  "ex_lcFast obs gen =
     [\<lparr>r_z = 1 / 5, r_daymax = 60000, r_data = 1\<rparr>,
      \<lparr>r_z = 1 / 10, r_daymax = 60000, r_data = 2\<rparr>,
      \<lparr>r_z = 1 / 5, r_daymax = 60000, r_data = 3\<rparr>]"


definition ex_flux :: "rat \<Rightarrow> string \<Rightarrow> rat" where
  \<comment> \<open>Integrated fluxes: zero in g, negative in r, 3631 Jy elsewhere.\<close>
  "ex_flux t b = (if b = ''g'' then 0 else if b = ''r'' then - 1 else 3631)"

definition ex_results :: "(string \<times> pyval list) list list" where
  \<comment> \<open>The metadata of three workers; the second one has emitted nothing.\<close>
  "ex_results =
     [[(''SNID'', [PInt 11, PInt 12]), (''z'', [PFloat (1 / 10), PFloat (1 / 5)])],
      [],
      [(''z'', [PFloat (3 / 10)]), (''SNID'', [PInt 11])]]"

section \<open>Properties of the scheduler\<close>

lemma np_int_nonneg: "0 \<le> x \<Longrightarrow> np_int x = \<lfloor>x\<rfloor>"
  by (simp add: np_int_def)

lemma floor_rat_div: "\<lfloor>rat_of_nat a / rat_of_nat b\<rfloor> = int (a div b)"
  by (metis floor_divide_of_nat_eq)



lemma batch_nth:
  assumes "1 \<le> npp" "i \<le> npp"
  shows "np_linspace_int 0 (rat_of_nat nlc) (npp + 1) ! i = int ((i * nlc) div npp)"
proof -
  have npp: "0 < npp" using assms by simp
  show ?thesis
  proof (cases "i = npp")
    case True
    then show ?thesis using npp
      by (simp add: np_linspace_int_def Let_def np_int_def)
  next
    case False
    then have lt: "i < npp" using assms by simp
    let ?q = "rat_of_nat i * rat_of_nat nlc / rat_of_nat npp"
    have fl: "\<lfloor>?q\<rfloor> = int ((i * nlc) div npp)"
      using floor_rat_div [of "i * nlc" npp] by simp
    have nn: "0 \<le> ?q" by simp
    have up: "i < Suc npp" using lt by simp
    have "np_linspace_int 0 (rat_of_nat nlc) (npp + 1) ! i = np_int ?q"
      using npp lt up
      by (simp add: np_linspace_int_def Let_def nth_append del: upt_Suc)
    then show ?thesis using nn fl by (simp only: np_int_nonneg)
  qed
qed

lemma concat_segments:
  fixes f :: "nat \<Rightarrow> nat"
  assumes "\<And>i. i < k \<Longrightarrow> f i \<le> f (Suc i)" "f 0 = 0"
  shows "concat (map (\<lambda>i. take (f (Suc i) - f i) (drop (f i) xs)) [0..<k]) = take (f k) xs"
  using assms
proof (induction k)
  case 0
  then show ?case by simp
next
  case (Suc k)
  have le: "f k \<le> f (Suc k)" using Suc.prems by simp
  have "take (f (Suc k)) xs = take (f k) xs @ take (f (Suc k) - f k) (drop (f k) xs)"
    using le by (metis le_add_diff_inverse take_add)
  then show ?case using Suc by simp
qed


lemma clip_index_nat: "a \<le> n \<Longrightarrow> clip_index n (int a) = a"
  by (simp add: clip_index_def)

lemma mono_bound:
  fixes npp :: nat
  assumes "0 < npp"
  shows "(i * nlc) div npp \<le> (Suc i * nlc) div npp"
  by (rule div_le_mono) simp

lemma bound_le:
  fixes npp :: nat
  assumes "0 < npp" "i \<le> npp"
  shows "(i * nlc) div npp \<le> nlc"
proof -
  have "i * nlc \<le> npp * nlc" using assms by simp
  then have "(i * nlc) div npp \<le> (npp * nlc) div npp" by (rule div_le_mono)
  then show ?thesis using assms by simp
qed

lemma simuSeason_shards_nth:
  assumes "1 \<le> npp" "i < npp"
  shows "simuSeason_shards npp gp ! i =
         take ((Suc i * length gp) div npp - (i * length gp) div npp)
              (drop ((i * length gp) div npp) gp)"
proof -
  have npp: "0 < npp" using assms by simp
  have b1: "np_linspace_int 0 (rat_of_nat (length gp)) (npp + 1) ! i = int ((i * length gp) div npp)"
    using assms by (intro batch_nth) simp_all
  have b2: "np_linspace_int 0 (rat_of_nat (length gp)) (npp + 1) ! (i + 1)
            = int ((Suc i * length gp) div npp)"
    using assms batch_nth [of npp "i + 1" "length gp"] by simp
  have c1: "clip_index (length gp) (int ((i * length gp) div npp)) = (i * length gp) div npp"
    using assms npp by (intro clip_index_nat bound_le) simp_all
  have c2: "clip_index (length gp) (int ((Suc i * length gp) div npp)) = (Suc i * length gp) div npp"
    using assms npp by (intro clip_index_nat bound_le) simp_all
  have "simuSeason_shards npp gp ! i = py_slice gp (np_linspace_int 0 (rat_of_nat (length gp)) (npp + 1) ! i)
                                        (np_linspace_int 0 (rat_of_nat (length gp)) (npp + 1) ! (i + 1))"
    using assms by (simp add: simuSeason_shards_def simuSeason_batch_def Let_def)
  then show ?thesis
    by (simp only: b1 b2 py_slice_def Let_def c1 c2)
qed

lemma simuSeason_shards_length: "length (simuSeason_shards npp gp) = npp"
  by (simp add: simuSeason_shards_def simuSeason_batch_def Let_def)

lemma simuSeason_shards_concat:
  assumes "1 \<le> npp"
  shows "concat (simuSeason_shards npp gp) = gp"
proof -
  have npp: "0 < npp" using assms by simp
  let ?f = "\<lambda>i. (i * length gp) div npp"
  have "simuSeason_shards npp gp = map (\<lambda>i. take (?f (Suc i) - ?f i) (drop (?f i) gp)) [0..<npp]"
    by (rule nth_equalityI) (simp_all add: simuSeason_shards_length simuSeason_shards_nth assms)
  moreover have "concat (map (\<lambda>i. take (?f (Suc i) - ?f i) (drop (?f i) gp)) [0..<npp]) = take (?f npp) gp"
  proof (rule concat_segments)
    fix i
    show "?f i \<le> ?f (Suc i)" by (rule mono_bound [OF npp])
  next
    show "?f 0 = 0" by simp
  qed
  moreover have "?f npp = length gp" using npp by simp
  ultimately show ?thesis by simp
qed






text \<open>
  The fast simulator runs in one worker, whose shard is the whole grid.
\<close>

lemma simuSeason_fast_single_shard:
  assumes "str_contains ''sn_fast'' simu_name"
  shows "simuSeason_shards (simuSeason_npp simu_name nprocs) gp = [gp]"
proof -
  have n: "simuSeason_npp simu_name nprocs = 1" using assms by (simp add: simuSeason_npp_def)
  have l: "length (simuSeason_shards 1 gp) = 1" by (rule simuSeason_shards_length)
  have c: "concat (simuSeason_shards 1 gp) = gp" by (rule simuSeason_shards_concat) simp
  obtain s where s: "simuSeason_shards 1 gp = [s]"
    using l by (cases "simuSeason_shards 1 gp") simp_all
  then show ?thesis using c n by simp
qed

section \<open>Decimal rendering is injective\<close>












section \<open>The storage index\<close>












section \<open>Dictionaries and the metadata accumulator\<close>

lemma dict_get_map_of:
  "dict_get d k = (case map_of d k of None \<Rightarrow> Inl KeyError | Some v \<Rightarrow> Inr v)"
  by (induction d) auto

lemma dict_get_set: "dict_get (dict_set d k v) k' = (if k' = k then Inr v else dict_get d k')"
  by (induction d) auto

lemma dict_keys_set_in: "k \<in> set (map fst d) \<Longrightarrow> map fst (dict_set d k v) = map fst d"
  by (induction d) (auto simp: rev_image_eqI)

lemma dict_keys_set_out: "k \<notin> set (map fst d) \<Longrightarrow> map fst (dict_set d k v) = map fst d @ [k]"
  by (induction d) auto

lemma dict_keys_set:
  "dict_keys (dict_set d k v) = (if k \<in> set (dict_keys d) then dict_keys d else dict_keys d @ [k])"
  unfolding dict_keys_def using dict_keys_set_in [of k d v] dict_keys_set_out [of k d v] by simp


lemma dict_set_present:
  "distinct (dict_keys d) \<Longrightarrow> k \<in> set (dict_keys d) \<Longrightarrow>
   dict_set d k v = map (\<lambda>(k', v'). (k', if k' = k then v else v')) d"
proof (induction d)
  case Nil
  then show ?case by (simp add: dict_keys_def)
next
  case (Cons p d)
  obtain k0 v0 where p: "p = (k0, v0)" by (cases p)
  show ?case
  proof (cases "k0 = k")
    case True
    then have "k \<notin> set (dict_keys d)" using Cons.prems p by (simp add: dict_keys_def)
    then have "map (\<lambda>(k', v'). (k', if k' = k then v else v')) d = d"
      by (induction d) (auto simp: dict_keys_def)
    then show ?thesis using True p by simp
  next
    case False
    then show ?thesis using Cons p by (simp add: dict_keys_def)
  qed
qed



lemma dict_get_update_other:
  "k \<notin> set (dict_keys e) \<Longrightarrow> dict_get (dict_update d e) k = dict_get d k"
proof (induction e arbitrary: d)
  case Nil
  then show ?case by (simp add: dict_update_def)
next
  case (Cons p e)
  obtain k' v where p: "p = (k', v)" by (cases p)
  have "dict_update d (p # e) = dict_update (dict_set d k' v) e"
    by (simp add: dict_update_def p)
  then show ?case using Cons p by (simp add: dict_keys_def dict_get_set)
qed




lemma dict_get_map_vals:
  "dict_get (map (\<lambda>(k, v). (k, f k v)) d) k =
     (case dict_get d k of Inl e \<Rightarrow> Inl e | Inr v \<Rightarrow> Inr (f k v))"
  by (induction d) auto

lemma dict_keys_map_vals: "dict_keys (map (\<lambda>(k, v). (k, f k v)) d) = dict_keys d"
  by (induction d) (auto simp: dict_keys_def)

lemma dict_get_in_keys: "k \<in> set (dict_keys d) \<Longrightarrow> \<exists>v. dict_get d k = Inr v \<and> map_of d k = Some v"
  by (induction d) (auto simp: dict_keys_def rev_image_eqI)


lemma dict_get_not_in_keys: "k \<notin> set (dict_keys d) \<Longrightarrow> dict_get d k = Inl KeyError"
  by (induction d) (auto simp: dict_keys_def)


lemma metadict_base:
  "dict_zip metanames [v1, v2, v3, v4, v5, v6, v7] =
     [(''SNID'', v1), (''index_hdf5'', v2), (''season'', v3), (''fieldname'', v4),
      (''fieldid'', v5), (''n_lc_points'', v6), (''area'', v7)]"
  by (simp add: dict_zip_def dict_update_def metanames_def)




lemma metadict_snid:
  "''SNID'' \<notin> set (dict_keys (lc_meta lc)) \<Longrightarrow>
   dict_get (writeLC_metadict snid i season lc st) ''SNID'' = Inr (PInt snid)"
  unfolding writeLC_metadict_def metadict_base
  by (simp add: dict_get_update_other)


section \<open>Flushing light curves: \<open>writeLC\<close> and \<open>dump\<close>\<close>






lemma dump_append:
  "dump fmt (xs @ ys) season j acc st =
     (case dump fmt xs season j acc st of
        Inl e \<Rightarrow> Inl e
      | Inr (st1, m1) \<Rightarrow> dump fmt ys season j m1 st1)"
proof (induction xs arbitrary: acc st)
  case Nil
  then show ?case by simp
next
  case (Cons lc xs)
  show ?case
  proof (cases "dict_get (SNID st) j")
    case (Inl e)
    then show ?thesis by simp
  next
    case (Inr c)
    let ?st1 = "st\<lparr>SNID := dict_set (SNID st) j (c + 1)\<rparr>"
    show ?thesis
    proof (cases "writeLC fmt (c + 1) lc season j acc ?st1")
      case (Inl e)
      then show ?thesis using Inr by (simp add: Let_def)
    next
      case w: (Inr p)
      obtain st2 m2 where p: "p = (st2, m2)" by (cases p)
      show ?thesis using Inr w p Cons.IH [of m2 st2] by (simp add: Let_def)
    qed
  qed
qed













text \<open>
  A worker of the physics simulator flushes its buffer whenever it holds 20 tables and
  once more at the end. When every call of the simulator succeeds, the worker has flushed,
  in order, the tables of all its objects: the flushes of one shard continue one sequence
  of identities.
\<close>

lemma simuLoop_each_flushes:
  assumes "\<forall>g \<in> set gen_params. simuLCs g = Inr (f g)"
  shows "(case simuLoop_each fmt simuLCs gen_params season iproc list_lc acc st of
            Inl e \<Rightarrow> Inl e
          | Inr (l, m, s) \<Rightarrow> dump fmt l season iproc m s)
         = dump fmt (list_lc @ concat (map f gen_params)) season iproc acc st"
  using assms
proof (induction gen_params arbitrary: list_lc acc st)
  case Nil
  then show ?case by simp
next
  case (Cons g gs)
  have g: "simuLCs g = Inr (f g)" using Cons.prems by simp
  have rest: "\<forall>g \<in> set gs. simuLCs g = Inr (f g)" using Cons.prems by simp
  have step: "simuLoop_each fmt simuLCs (g # gs) season iproc list_lc acc st =
      (if 20 \<le> length (list_lc @ f g)
       then (case dump fmt (list_lc @ f g) season iproc acc st of
               Inl e \<Rightarrow> Inl e
             | Inr (st', m') \<Rightarrow> simuLoop_each fmt simuLCs gs season iproc [] m' st')
       else simuLoop_each fmt simuLCs gs season iproc (list_lc @ f g) acc st)"
    using g by (cases "f g = []") (simp_all add: Let_def)
  show ?case
  proof (cases "20 \<le> length (list_lc @ f g)")
    case False
    then have "simuLoop_each fmt simuLCs (g # gs) season iproc list_lc acc st =
        simuLoop_each fmt simuLCs gs season iproc (list_lc @ f g) acc st"
      by (simp only: step if_False)
    then show ?thesis using Cons.IH [OF rest, of "list_lc @ f g" acc st] by simp
  next
    case True
    show ?thesis
    proof (cases "dump fmt (list_lc @ f g) season iproc acc st")
      case (Inl e)
      then have "simuLoop_each fmt simuLCs (g # gs) season iproc list_lc acc st = Inl e"
        using True by (simp only: step if_True sum.case)
      moreover have "dump fmt ((list_lc @ f g) @ concat (map f gs)) season iproc acc st = Inl e"
        using Inl by (simp only: dump_append [of fmt "list_lc @ f g"] sum.case)
      ultimately show ?thesis by simp
    next
      case (Inr p)
      obtain st' m' where p: "p = (st', m')" by (cases p)
      have "simuLoop_each fmt simuLCs (g # gs) season iproc list_lc acc st =
          simuLoop_each fmt simuLCs gs season iproc [] m' st'"
        using True Inr p by (simp only: step if_True sum.case prod.case)
      moreover have "dump fmt ((list_lc @ f g) @ concat (map f gs)) season iproc acc st =
          dump fmt (concat (map f gs)) season iproc m' st'"
        using Inr p by (simp only: dump_append [of fmt "list_lc @ f g"] sum.case prod.case)
      ultimately show ?thesis using Cons.IH [OF rest, of "[]" m' st'] by simp
    qed
  qed
qed

lemma simuLoop_physics_flushes:
  assumes "\<not> str_contains ''sn_fast'' simu_name"
    and "\<forall>g \<in> set gen_params. simuLCs g = Inr (f g)"
  shows "simuLoop fmt simu_name simuLCs simuLCs_fast gen_params season iproc st =
           (case dump fmt (concat (map f gen_params)) season iproc [] st of
              Inl e \<Rightarrow> Inl e
            | Inr (st', m) \<Rightarrow> Inr (m, st'))"
proof -
  have d: "dump fmt (concat (map f gen_params)) season iproc [] st =
      (case simuLoop_each fmt simuLCs gen_params season iproc [] [] st of
         Inl e \<Rightarrow> Inl e
       | Inr (l, m, s) \<Rightarrow> dump fmt l season iproc m s)"
    using simuLoop_each_flushes [OF assms(2), of fmt season iproc "[]" "[]" st] by simp
  show ?thesis
  proof (cases "simuLoop_each fmt simuLCs gen_params season iproc [] [] st")
    case (Inl err)
    then show ?thesis using assms(1) by (simp add: simuLoop_def py_bind_def d)
  next
    case (Inr p)
    obtain l m s where p: "p = (l, m, s)" by (cases p)
    show ?thesis
    proof (cases l)
      case Nil
      then show ?thesis using assms(1) Inr p
        by (simp add: simuLoop_def py_bind_def d)
    next
      case (Cons a l')
      then show ?thesis using assms(1) Inr p
        by (simp add: simuLoop_def py_bind_def d split: sum.splits)
    qed
  qed
qed

lemma simuLoop_fast_flushes:
  assumes "str_contains ''sn_fast'' simu_name" and "simuLCs_fast gen_params = Inr tables"
  shows "simuLoop fmt simu_name simuLCs simuLCs_fast gen_params season iproc st =
           (case dump fmt tables season iproc [] st of
              Inl e \<Rightarrow> Inl e
            | Inr (st', m) \<Rightarrow> Inr (m, st'))"
  using assms by (cases tables) (simp_all add: simuLoop_def py_bind_def split: sum.splits)

section \<open>The season loop\<close>

lemma select_non_u_eq:
  "\<forall>v \<in> set obs. v_band v \<noteq> [] \<Longrightarrow>
   select_non_u obs = Inr (filter (\<lambda>v. last (v_band v) \<noteq> CHR ''u'') obs)"
  by (induction obs) simp_all

lemma run_season_short:
  assumes bands: "\<forall>v \<in> set obs. v_season v = seas \<longrightarrow> v_band v \<noteq> []"
    and few: "length (filter (\<lambda>v. last (v_band v) \<noteq> CHR ''u'')
                        (filter (\<lambda>v. v_season v = seas) obs)) < 5"
  shows "run_season simuSeason obs iproc seas st =
           Inr (st\<lparr>index_hdf5 := index_hdf5 st + 10000 * (seas - 1)\<rparr>)"
proof -
  have "\<forall>v \<in> set (filter (\<lambda>v. v_season v = seas) obs). v_band v \<noteq> []"
    using bands by simp
  then have "select_non_u (filter (\<lambda>v. v_season v = seas) obs) =
      Inr (filter (\<lambda>v. last (v_band v) \<noteq> CHR ''u'') (filter (\<lambda>v. v_season v = seas) obs))"
    by (rule select_non_u_eq)
  then show ?thesis using few by (simp add: run_season_def Let_def)
qed

text \<open>
  When every season of the loop is short, the loop ends with the files, the metadata
  store and the identity counters as they were.
\<close>

lemma run_seasons_short:
  assumes "\<forall>v \<in> set obs. v_band v \<noteq> []"
    and "\<forall>seas \<in> set seasons.
           length (filter (\<lambda>v. last (v_band v) \<noteq> CHR ''u'')
                     (filter (\<lambda>v. v_season v = seas) obs)) < 5"
  shows "\<exists>st'. run_seasons simuSeason obs iproc seasons st = Inr st' \<and>
           files st' = files st \<and> sn_meta st' = sn_meta st \<and> SNID st' = SNID st"
  using assms
proof (induction seasons arbitrary: st)
  case Nil
  then show ?case by simp
next
  case (Cons seas seasons)
  let ?st1 = "st\<lparr>index_hdf5 := index_hdf5 st + 10000 * (seas - 1)\<rparr>"
  have b: "\<forall>v \<in> set obs. v_season v = seas \<longrightarrow> v_band v \<noteq> []" using Cons.prems(1) by simp
  have f: "length (filter (\<lambda>v. last (v_band v) \<noteq> CHR ''u'')
                     (filter (\<lambda>v. v_season v = seas) obs)) < 5"
    using Cons.prems(2) by simp
  have s: "run_season simuSeason obs iproc seas st = Inr ?st1"
    by (rule run_season_short [OF b f])
  have rest: "\<forall>seas \<in> set seasons.
           length (filter (\<lambda>v. last (v_band v) \<noteq> CHR ''u'')
                     (filter (\<lambda>v. v_season v = seas) obs)) < 5"
    using Cons.prems(2) by simp
  obtain st' where r: "run_seasons simuSeason obs iproc seasons ?st1 = Inr st'"
    and q: "files st' = files ?st1" "sn_meta st' = sn_meta ?st1" "SNID st' = SNID ?st1"
    using Cons.IH [OF Cons.prems(1) rest, of ?st1] by (elim exE conjE)
  have "run_seasons simuSeason obs iproc (seas # seasons) st = Inr st'" using s r by simp
  moreover have "files st' = files st" "sn_meta st' = sn_meta st" "SNID st' = SNID st"
    using q by simp_all
  ultimately show ?case by blast
qed

text \<open>
  C6. A season whose observations, once the visits of the u band are left out, number
  fewer than 5 is skipped: whatever \<open>simuSeason\<close> would do, it is not called. No error is
  raised, and the wrapper is left as it was but for the running index: no light curve is
  written to a file and nothing is added to the metadata from which the summary is
  written. (The band of a visit is a non-empty name.)
\<close>

theorem run_season_skips:
  assumes bands: "\<forall>v \<in> set obs. v_season v = seas \<longrightarrow> v_band v \<noteq> []"
    and few: "length (filter (\<lambda>v. last (v_band v) \<noteq> CHR ''u'')
                        (filter (\<lambda>v. v_season v = seas) obs)) < 5"
  shows "run_season simuSeason obs iproc seas st =
           Inr (st\<lparr>index_hdf5 := index_hdf5 st + 10000 * (seas - 1)\<rparr>)"
  by (rule run_season_short [OF bands few])

theorem run_season_skips_witness:
  "length (filter (\<lambda>v. last (v_band v) \<noteq> CHR ''u'')
             (filter (\<lambda>v. v_season v = 1) ex_obs_short)) = 4 \<and>
   run_season (\<lambda>sel seas iproc st. Inl ValueError) ex_obs_short 1 1 ex_prepared =
     Inr (ex_prepared\<lparr>index_hdf5 := index_hdf5 ex_prepared\<rparr>) \<and>
   run_season (\<lambda>sel seas iproc st. Inl ValueError) ex_obs_short 1 2 ex_prepared =
     Inl ValueError"
proof -
  have n: "length (filter (\<lambda>v. last (v_band v) \<noteq> CHR ''u'')
             (filter (\<lambda>v. v_season v = 1) ex_obs_short)) = 4"
    by (simp add: ex_obs_short_def ex_visit_def)
  have b: "\<forall>v \<in> set ex_obs_short. v_season v = 1 \<longrightarrow> v_band v \<noteq> []"
    by (simp add: ex_obs_short_def ex_visit_def)
  have f: "length (filter (\<lambda>v. last (v_band v) \<noteq> CHR ''u'')
             (filter (\<lambda>v. v_season v = 1) ex_obs_short)) < 5"
    using n by simp
  have "run_season (\<lambda>sel seas iproc st. Inl ValueError) ex_obs_short 1 1 ex_prepared =
     Inr (ex_prepared\<lparr>index_hdf5 := index_hdf5 ex_prepared\<rparr>)"
    using run_season_skips [OF b f, of "\<lambda>sel seas iproc st. Inl ValueError" 1 ex_prepared]
    by simp
  moreover have "run_season (\<lambda>sel seas iproc st. Inl ValueError) ex_obs_short 1 2 ex_prepared =
     Inl ValueError"
    by (simp add: run_season_def Let_def ex_obs_short_def ex_visit_def)
  ultimately show ?thesis using n by (intro conjI)
qed

section \<open>The physics simulator\<close>

lemma unique_first_error: "unique_first xs = Inl e \<Longrightarrow> e = IndexError"
  by (simp add: unique_first_def split: list.splits)


lemma call_pix_error: "call_pix names obs = Inl e \<Longrightarrow> e = IndexError"
  by (auto simp add: call_pix_def py_bind_def split: sum.splits if_splits
      dest: unique_first_error)


text \<open>
  C9. The data frame has one row for each selected visit, so the test \<open>len(obs) == 0\<close> that
  follows the test \<open>len(lcdf) == 0\<close> never succeeds: \<open>__call__\<close> never evaluates the unbound
  name \<open>metadata\<close>, whatever the selection, the model and the observations are.
\<close>

theorem cosmo_call_never_NameError:
  "length (DataFrame (env_cutoff env sn obs)) = length (env_cutoff env sn obs) \<and>
   cosmo_call env sn names obs \<noteq> Inl NameError"
proof
  show l: "length (DataFrame (env_cutoff env sn obs)) = length (env_cutoff env sn obs)"
    by (simp add: DataFrame_def)
  show "cosmo_call env sn names obs \<noteq> Inl NameError"
  proof (cases "unique_first (map v_season obs)")
    case (Inl e)
    then have "e = IndexError" by (rule unique_first_error)
    then show ?thesis using Inl by (simp add: cosmo_call_def py_bind_def)
  next
    case s: (Inr season)
    show ?thesis
    proof (cases "call_pix names obs")
      case (Inl e)
      then have "e = IndexError" by (rule call_pix_error)
      then show ?thesis using s Inl by (simp add: cosmo_call_def py_bind_def)
    next
      case (Inr px)
      have e: "DataFrame (env_cutoff env sn obs) = [] \<longleftrightarrow> env_cutoff env sn obs = []"
        by (simp add: DataFrame_def)
      show ?thesis using s Inr
        by (simp add: cosmo_call_def py_bind_def Let_def e)
    qed
  qed
qed

lemma clamp_fluxes_nonneg: "f \<in> set (clamp_fluxes fs) \<Longrightarrow> 0 \<le> f"
  by (auto simp add: clamp_fluxes_def)

lemma clamp_fluxes_negative: "f < 0 \<Longrightarrow> clamp_fluxes [f] = [1 / 100000]"
  by (simp add: clamp_fluxes_def)

text \<open>
  C7 fails on the code. Only a negative integrated flux is replaced by \<open>1.e-5\<close>: a flux
  that is exactly zero is kept, and the argument of the logarithm is then zero. Below, the
  visits in the g band have a zero flux and those in the r band a negative one; each row
  of the table returned is the pair of the flux and of the argument of the logarithm.
\<close>

theorem clamp_keeps_zero_flux:
  "clamp_fluxes [0, - 1] = [0, 1 / 100000] \<and>
   log_arguments (clamp_fluxes [0, - 1]) = [0, 1 / 363100000] \<and>
   table_rows (cosmo_call (ex_env ex_flux) ex_sn ex_names ex_obs) =
     [[(0, 0), (1 / 100000, 1 / 363100000), (3631, 1),
       (0, 0), (1 / 100000, 1 / 363100000), (3631, 1)]]"
proof -
  have a: "clamp_fluxes [0, - 1] = [0, 1 / 100000]" by (simp add: clamp_fluxes_def)
  have b: "log_arguments (clamp_fluxes [0, - 1]) = [0, 1 / 363100000]"
    by (simp add: clamp_fluxes_def log_arguments_def)
  have c: "table_rows (cosmo_call (ex_env ex_flux) ex_sn ex_names ex_obs) =
     [[(0, 0), (1 / 100000, 1 / 363100000), (3631, 1),
       (0, 0), (1 / 100000, 1 / 363100000), (3631, 1)]]"
    by code_simp
  from a b c show ?thesis by (intro conjI)
qed

section \<open>The fast simulator\<close>

lemma one_value_remdups:
  assumes "one_value xs"
  shows "remdups xs = [hd xs]"
proof -
  obtain y where y: "remdups xs = [y]"
    using assms unfolding one_value_def
    by (cases "remdups xs") (simp_all add: length_Suc_conv)
  then have "set xs = {y}" by (metis list.set(1) list.simps(15) set_remdups)
  moreover have "xs \<noteq> []" using y by auto
  ultimately have "hd xs = y" using hd_in_set by blast
  then show ?thesis using y by simp
qed

lemma unique_item_one: "one_value xs \<Longrightarrow> unique_item xs = Inr (hd xs)"
  by (simp add: unique_item_def one_value_remdups)

lemma hd_map_one: "one_value (map f xs) \<Longrightarrow> hd (map f xs) = f (hd xs)"
  by (cases xs) (simp_all add: one_value_def)

lemma fast_call_eq:
  assumes "shard_uniform gen obs"
  shows "fast_call lcFast gen obs =
           Inr (map (\<lambda>name.
                  \<lparr>lc_rows = filter (\<lambda>r. (r_z r, r_daymax r) = name) (lcFast obs gen),
                   lc_meta = [(''z'', PFloat (fst name)), (''daymax'', PFloat (snd name))]
                             @ premeta_of gen obs\<rparr>)
                (group_keys (lcFast obs gen)))"
proof -
  have u: "unique_item (map g_x1 gen) = Inr (g_x1 (hd gen))"
    "unique_item (map g_color gen) = Inr (g_color (hd gen))"
    "unique_item (map g_epsilon_x0 gen) = Inr (g_epsilon_x0 (hd gen))"
    "unique_item (map g_epsilon_x1 gen) = Inr (g_epsilon_x1 (hd gen))"
    "unique_item (map g_epsilon_color gen) = Inr (g_epsilon_color (hd gen))"
    "unique_item (map g_epsilon_daymax gen) = Inr (g_epsilon_daymax (hd gen))"
    "unique_item (map v_pixRA obs) = Inr (v_pixRA (hd obs))"
    "unique_item (map v_pixDec obs) = Inr (v_pixDec (hd obs))"
    "unique_item (map v_healpixID obs) = Inr (v_healpixID (hd obs))"
    using assms unfolding shard_uniform_def
    by (simp_all only: unique_item_one hd_map_one)
  have i: "fast_init gen =
     Inr [(''x1'', PFloat (g_x1 (hd gen))), (''color'', PFloat (g_color (hd gen))),
          (''x0'', PFloat (- 1)),
          (''epsilon_x0'', PFloat (g_epsilon_x0 (hd gen))),
          (''epsilon_x1'', PFloat (g_epsilon_x1 (hd gen))),
          (''epsilon_color'', PFloat (g_epsilon_color (hd gen))),
          (''epsilon_daymax'', PFloat (g_epsilon_daymax (hd gen)))]"
    unfolding fast_init_def py_bind_def Let_def
    by (simp add: u dict_update_def dict_zip_def)
  have p: "dict_update
      [(''x1'', PFloat (g_x1 (hd gen))), (''color'', PFloat (g_color (hd gen))),
          (''x0'', PFloat (- 1)),
          (''epsilon_x0'', PFloat (g_epsilon_x0 (hd gen))),
          (''epsilon_x1'', PFloat (g_epsilon_x1 (hd gen))),
          (''epsilon_color'', PFloat (g_epsilon_color (hd gen))),
          (''epsilon_daymax'', PFloat (g_epsilon_daymax (hd gen)))]
      (dict_zip [''RA'', ''Dec'', ''pixRA'', ''pixDec'', ''healpixID'', ''dL'']
                [PFloat (np_mean (map v_RA obs)), PFloat (np_mean (map v_Dec obs)),
                 PFloat (v_pixRA (hd obs)), PFloat (v_pixDec (hd obs)),
                 PInt (v_healpixID (hd obs)), PInt (- 1)])
      = premeta_of gen obs"
    by (simp add: dict_update_def dict_zip_def premeta_of_def)
  have m: "\<And>name. dict_update (dict_zip [''z'', ''daymax''] [PFloat (fst name), PFloat (snd name)])
              (premeta_of gen obs)
            = [(''z'', PFloat (fst name)), (''daymax'', PFloat (snd name))] @ premeta_of gen obs"
    by (simp add: dict_update_def dict_zip_def premeta_of_def)
  show ?thesis
    unfolding fast_call_def py_bind_def Let_def
    by (simp add: i u p transform_def m group_keys_def)
qed


lemma group_keys_set:
  "distinct (group_keys tab) \<and> set (group_keys tab) = (\<lambda>r. (r_z r, r_daymax r)) ` set tab"
  by (simp add: group_keys_def)

text \<open>
  C8. On a shard with one stretch, one colour and one value of each perturbation, and
  observations of one pixel, the call of the fast simulator returns one table for each
  distinct (z, daymax) pair of the combined result, in the order of the pairs. The rows
  of a table are the rows of the result with its pair, and its metadata are the pair
  followed by the parameters shared by the shard: stretch, colour, the amplitude \<open>-1\<close>, the
  four perturbations, the position, the pixel and the distance \<open>dL = -1\<close>.
\<close>

theorem fast_call_groups:
  assumes "shard_uniform gen obs"
  shows "fast_call lcFast gen obs =
           Inr (map (\<lambda>name.
                  \<lparr>lc_rows = filter (\<lambda>r. (r_z r, r_daymax r) = name) (lcFast obs gen),
                   lc_meta = [(''z'', PFloat (fst name)), (''daymax'', PFloat (snd name))]
                             @ premeta_of gen obs\<rparr>)
                (group_keys (lcFast obs gen))) \<and>
         distinct (group_keys (lcFast obs gen)) \<and>
         set (group_keys (lcFast obs gen)) = (\<lambda>r. (r_z r, r_daymax r)) ` set (lcFast obs gen)"
  using fast_call_eq [OF assms, of lcFast] group_keys_set [of "lcFast obs gen"]
  by (intro conjI) simp_all

lemma ex_uniform: "shard_uniform ex_gen ex_obs"
  by code_simp

lemma ex_group_keys: "group_keys (ex_lcFast ex_obs ex_gen) = [(1 / 10, 60000), (1 / 5, 60000)]"
  by code_simp

theorem fast_call_groups_witness:
  "shard_uniform ex_gen ex_obs \<and>
   fast_call ex_lcFast ex_gen ex_obs =
     Inr [\<lparr>lc_rows = [\<lparr>r_z = 1 / 10, r_daymax = 60000, r_data = 2\<rparr>],
           lc_meta = [(''z'', PFloat (1 / 10)), (''daymax'', PFloat 60000)]
                     @ premeta_of ex_gen ex_obs\<rparr>,
          \<lparr>lc_rows = [\<lparr>r_z = 1 / 5, r_daymax = 60000, r_data = 1\<rparr>,
                      \<lparr>r_z = 1 / 5, r_daymax = 60000, r_data = 3\<rparr>],
           lc_meta = [(''z'', PFloat (1 / 5)), (''daymax'', PFloat 60000)]
                     @ premeta_of ex_gen ex_obs\<rparr>]"
proof -
  have "fast_call ex_lcFast ex_gen ex_obs =
     Inr [\<lparr>lc_rows = [\<lparr>r_z = 1 / 10, r_daymax = 60000, r_data = 2\<rparr>],
           lc_meta = [(''z'', PFloat (1 / 10)), (''daymax'', PFloat 60000)]
                     @ premeta_of ex_gen ex_obs\<rparr>,
          \<lparr>lc_rows = [\<lparr>r_z = 1 / 5, r_daymax = 60000, r_data = 1\<rparr>,
                      \<lparr>r_z = 1 / 5, r_daymax = 60000, r_data = 3\<rparr>],
           lc_meta = [(''z'', PFloat (1 / 5)), (''daymax'', PFloat 60000)]
                     @ premeta_of ex_gen ex_obs\<rparr>]"
    using conjunct1 [OF fast_call_groups [OF ex_uniform, of ex_lcFast]]
    by (simp add: ex_group_keys) (simp add: ex_lcFast_def)
  with ex_uniform show ?thesis by (intro conjI)
qed






section \<open>Merging the workers' metadata\<close>

lemma merge_items_eq:
  "distinct (dict_keys items) \<Longrightarrow> distinct (dict_keys store) \<Longrightarrow>
   set (dict_keys items) \<subseteq> set (dict_keys store) \<Longrightarrow>
   merge_items items store =
     Inr (map (\<lambda>(k, vs). (k, case map_of items k of None \<Rightarrow> vs | Some ws \<Rightarrow> vs @ ws)) store)"
proof (induction items arbitrary: store)
  case Nil
  then show ?case by (simp add: case_prod_unfold)
next
  case (Cons p items)
  obtain k ws where p: "p = (k, ws)" by (cases p)
  have kin: "k \<in> set (dict_keys store)" using Cons.prems p by (simp add: dict_keys_def)
  obtain vs where g: "dict_get store k = Inr vs" and mo: "map_of store k = Some vs"
    using dict_get_in_keys [OF kin] by (elim exE conjE)
  let ?s1 = "dict_set store k (vs @ ws)"
  have a1: "?s1 = map (\<lambda>(k', v'). (k', if k' = k then vs @ ws else v')) store"
    by (rule dict_set_present [OF Cons.prems(2) kin])
  have k1: "dict_keys ?s1 = dict_keys store" using kin by (simp add: dict_keys_set)
  have d: "distinct (dict_keys items)" and nk: "k \<notin> set (dict_keys items)"
    using Cons.prems p by (simp_all add: dict_keys_def)
  have sub: "set (dict_keys items) \<subseteq> set (dict_keys ?s1)"
    using Cons.prems p k1 by (simp add: dict_keys_def)
  have d1: "distinct (dict_keys ?s1)" using Cons.prems k1 by simp
  have none: "map_of items k = None" using nk by (simp add: dict_keys_def map_of_eq_None_iff)
  have "merge_items (p # items) store = merge_items items ?s1" using p g by simp
  also have "\<dots> = Inr (map (\<lambda>(k, vs). (k, case map_of items k of None \<Rightarrow> vs | Some ws \<Rightarrow> vs @ ws)) ?s1)"
    by (rule Cons.IH [OF d d1 sub])
  also have "map (\<lambda>(k, vs). (k, case map_of items k of None \<Rightarrow> vs | Some ws \<Rightarrow> vs @ ws)) ?s1
    = map (\<lambda>(k, vs). (k, case map_of (p # items) k of None \<Rightarrow> vs | Some ws \<Rightarrow> vs @ ws)) store"
  proof -
    have aux: "(case map_of items k' of None \<Rightarrow> (if k' = k then vs @ ws else vs')
                 | Some w \<Rightarrow> (if k' = k then vs @ ws else vs') @ w)
        = (case map_of (p # items) k' of None \<Rightarrow> vs' | Some w \<Rightarrow> vs' @ w)"
      if m: "(k', vs') \<in> set store" for k' vs'
    proof (cases "k' = k")
      case True
      have "map_of store k' = Some vs'"
        using m Cons.prems(2) by (simp add: dict_keys_def)
      then have "vs' = vs" using mo True by simp
      then show ?thesis using True none p by simp
    next
      case False
      then show ?thesis using p by simp
    qed
    have "\<forall>x \<in> set store.
        ((\<lambda>(k, vs). (k, case map_of items k of None \<Rightarrow> vs | Some ws \<Rightarrow> vs @ ws))
           \<circ> (\<lambda>(k', v'). (k', if k' = k then vs @ ws else v'))) x
        = (\<lambda>(k, vs). (k, case map_of (p # items) k of None \<Rightarrow> vs | Some ws \<Rightarrow> vs @ ws)) x"
    proof
      fix x
      assume xin: "x \<in> set store"
      obtain k' vs' where x: "x = (k', vs')" by (cases x)
      show "((\<lambda>(k, vs). (k, case map_of items k of None \<Rightarrow> vs | Some ws \<Rightarrow> vs @ ws))
           \<circ> (\<lambda>(k', v'). (k', if k' = k then vs @ ws else v'))) x
        = (\<lambda>(k, vs). (k, case map_of (p # items) k of None \<Rightarrow> vs | Some ws \<Rightarrow> vs @ ws)) x"
        using aux [of k' vs'] xin unfolding x by (simp only: comp_def case_prod_conv)
    qed
    then have "map ((\<lambda>(k, vs). (k, case map_of items k of None \<Rightarrow> vs | Some ws \<Rightarrow> vs @ ws))
           \<circ> (\<lambda>(k', v'). (k', if k' = k then vs @ ws else v'))) store
        = map (\<lambda>(k, vs). (k, case map_of (p # items) k of None \<Rightarrow> vs | Some ws \<Rightarrow> vs @ ws)) store"
      by (simp only: map_eq_conv)
    then show ?thesis unfolding a1 by (simp only: map_map)
  qed
  finally show ?case .
qed

lemma acc_vals_map_of:
  "acc_vals d k = (case map_of d k of None \<Rightarrow> [] | Some vs \<Rightarrow> vs)"
  by (simp add: acc_vals_def dict_get_map_of split: option.splits)

lemma merge_items_vals:
  assumes di: "distinct (dict_keys items)" and ds: "distinct (dict_keys store)"
    and sub: "set (dict_keys items) \<subseteq> set (dict_keys store)"
  shows "\<exists>s'. merge_items items store = Inr s' \<and> dict_keys s' = dict_keys store \<and>
           (\<forall>k. acc_vals s' k = acc_vals store k @ acc_vals items k)"
proof -
  let ?g = "\<lambda>k vs. case map_of items k of None \<Rightarrow> vs | Some ws \<Rightarrow> vs @ ws"
  let ?s' = "map (\<lambda>(k, vs). (k, ?g k vs)) store"
  have r: "merge_items items store = Inr ?s'" by (rule merge_items_eq [OF di ds sub])
  have k: "dict_keys ?s' = dict_keys store" by (rule dict_keys_map_vals)
  have v: "\<forall>k. acc_vals ?s' k = acc_vals store k @ acc_vals items k"
  proof
    fix k
    show "acc_vals ?s' k = acc_vals store k @ acc_vals items k"
    proof (cases "k \<in> set (dict_keys store)")
      case True
      obtain vs where g: "dict_get store k = Inr vs"
        using dict_get_in_keys [OF True] by (elim exE conjE)
      have "dict_get ?s' k = Inr (?g k vs)"
        by (simp only: dict_get_map_vals g sum.case)
      then have "acc_vals ?s' k = ?g k vs" unfolding acc_vals_def by (simp only: sum.case)
      moreover have "acc_vals store k = vs" unfolding acc_vals_def by (simp only: g sum.case)
      ultimately show ?thesis by (simp add: acc_vals_map_of [of items] split: option.splits)
    next
      case False
      then have g: "dict_get store k = Inl KeyError" by (rule dict_get_not_in_keys)
      have "k \<notin> set (dict_keys items)" using False sub by blast
      then have gi: "dict_get items k = Inl KeyError" by (rule dict_get_not_in_keys)
      have "dict_get ?s' k = Inl KeyError"
        by (simp only: dict_get_map_vals g sum.case)
      then show ?thesis using g gi by (simp add: acc_vals_def)
    qed
  qed
  show ?thesis using r k v by blast
qed


lemma simuSeason_merge_cong:
  "\<forall>j \<in> set js. dict_get rd j = dict_get rd' j \<Longrightarrow>
   simuSeason_merge js rd store = simuSeason_merge js rd' store"
proof (induction js arbitrary: store)
  case Nil
  then show ?case by simp
next
  case (Cons j js)
  have e: "dict_get rd j = dict_get rd' j" using Cons.prems by simp
  have r: "\<And>s. simuSeason_merge js rd s = simuSeason_merge js rd' s"
    using Cons.IH Cons.prems by simp
  show ?case by (simp add: e r split: sum.splits)
qed

lemma simuSeason_merge_vals:
  assumes "\<forall>j \<in> set js. \<exists>r. dict_get rd j = Inr r \<and>
             (r = [] \<or> (distinct (dict_keys r) \<and> set (dict_keys r) = KS))"
    and "store = [] \<or> (distinct (dict_keys store) \<and> set (dict_keys store) = KS)"
  shows "\<exists>m. simuSeason_merge js rd store = Inr m \<and>
           (\<forall>k. acc_vals m k = acc_vals store k @ concat (map (\<lambda>j. acc_vals (acc_vals rd j) k) js))"
  using assms
proof (induction js arbitrary: store)
  case Nil
  then show ?case by simp
next
  case (Cons j js)
  obtain r where g: "dict_get rd j = Inr r"
    and ur: "r = [] \<or> (distinct (dict_keys r) \<and> set (dict_keys r) = KS)"
    using Cons.prems(1) by auto
  have rj: "acc_vals rd j = r" by (simp add: acc_vals_def g)
  have rest: "\<forall>j \<in> set js. \<exists>r. dict_get rd j = Inr r \<and>
             (r = [] \<or> (distinct (dict_keys r) \<and> set (dict_keys r) = KS))"
    using Cons.prems(1) by simp
  show ?case
  proof (cases "store = []")
    case True
    obtain m where m: "simuSeason_merge js rd r = Inr m"
      and v: "\<forall>k. acc_vals m k = acc_vals r k @ concat (map (\<lambda>j. acc_vals (acc_vals rd j) k) js)"
      using Cons.IH [OF rest ur] by (elim exE conjE)
    have "simuSeason_merge (j # js) rd store = Inr m" using True g m by simp
    moreover have "\<forall>k. acc_vals m k =
        acc_vals store k @ concat (map (\<lambda>j. acc_vals (acc_vals rd j) k) (j # js))"
      using v True rj by (simp add: acc_vals_def)
    ultimately show ?thesis by blast
  next
    case False
    then have us: "distinct (dict_keys store)" "set (dict_keys store) = KS"
      using Cons.prems(2) by simp_all
    have dr: "distinct (dict_keys r)" using ur by (auto simp: dict_keys_def)
    have sub: "set (dict_keys r) \<subseteq> set (dict_keys store)"
      using ur us by (auto simp: dict_keys_def)
    obtain s' where s': "merge_items r store = Inr s'"
      and ks: "dict_keys s' = dict_keys store"
      and vs: "\<forall>k. acc_vals s' k = acc_vals store k @ acc_vals r k"
      using merge_items_vals [OF dr us(1) sub] by (elim exE conjE)
    have u': "s' = [] \<or> (distinct (dict_keys s') \<and> set (dict_keys s') = KS)"
      using ks us by simp
    obtain m where m: "simuSeason_merge js rd s' = Inr m"
      and v: "\<forall>k. acc_vals m k = acc_vals s' k @ concat (map (\<lambda>j. acc_vals (acc_vals rd j) k) js)"
      using Cons.IH [OF rest u'] by (elim exE conjE)
    have "simuSeason_merge (j # js) rd store = Inr m" using False g s' m by simp
    moreover have "\<forall>k. acc_vals m k =
        acc_vals store k @ concat (map (\<lambda>j. acc_vals (acc_vals rd j) k) (j # js))"
      using v vs rj by simp
    ultimately show ?thesis by blast
  qed
qed

lemma map_index_upt: "map (\<lambda>j. f (xs ! j)) [0..<length xs] = map f xs"
  by (rule nth_equalityI) simp_all

lemma collect_lookup:
  "dict_get (foldl dict_update d (map (\<lambda>j. [(j, f j)]) p)) i =
     (if i \<in> set p then Inr (f i) else dict_get d i)"
proof (induction p arbitrary: d)
  case Nil
  then show ?case by simp
next
  case (Cons j p)
  have "dict_update d [(j, f j)] = dict_set d j (f j)" by (simp add: dict_update_def)
  then show ?case using Cons.IH [of "dict_set d j (f j)"] by (simp add: dict_get_set)
qed

lemma collect_arrivals:
  assumes "distinct p" "set p = {0..<K}"
  shows "\<exists>rd. simuSeason_collect (map (\<lambda>j. [(j, f j)]) p) K = Some rd \<and>
           (\<forall>j < K. dict_get rd j = Inr (f j))"
proof -
  have "length p = K" using assms by (metis card_atLeastLessThan diff_zero distinct_card)
  then have "simuSeason_collect (map (\<lambda>j. [(j, f j)]) p) K =
      Some (foldl dict_update [] (map (\<lambda>j. [(j, f j)]) p))"
    by (simp add: simuSeason_collect_def)
  moreover have "\<forall>j < K. dict_get (foldl dict_update [] (map (\<lambda>j. [(j, f j)]) p)) j = Inr (f j)"
    using assms by (simp add: collect_lookup)
  ultimately show ?thesis by blast
qed

text \<open>
  C4. Let the workers \<open>0 .. K-1\<close> post the results \<open>rs ! 0 .. rs ! (K-1)\<close>, each under its
  index, and let the messages arrive in any order \<open>p\<close>. When every result, and the store
  merged into, is either empty or a dictionary with one and the same set of keys, the
  merge succeeds and gives for every key the list of the store followed by the lists of
  the workers in index order; the merged store is the one obtained when the messages
  arrive in index order.
\<close>

theorem simuSeason_gather_deterministic:
  assumes perm: "distinct p" "set p = {0..<length rs}"
    and ur: "\<forall>r \<in> set rs. r = [] \<or> (distinct (dict_keys r) \<and> set (dict_keys r) = KS)"
    and us: "store = [] \<or> (distinct (dict_keys store) \<and> set (dict_keys store) = KS)"
  shows "\<exists>m. simuSeason_gather (map (\<lambda>j. [(j, rs ! j)]) p) (length rs) store = Some (Inr m) \<and>
           (\<forall>k. acc_vals m k = acc_vals store k @ concat (map (\<lambda>r. acc_vals r k) rs)) \<and>
           simuSeason_gather (map (\<lambda>j. [(j, rs ! j)]) [0..<length rs]) (length rs) store
             = Some (Inr m)"
proof -
  let ?K = "length rs"
  obtain rd where c: "simuSeason_collect (map (\<lambda>j. [(j, rs ! j)]) p) ?K = Some rd"
    and l: "\<forall>j < ?K. dict_get rd j = Inr (rs ! j)"
    using collect_arrivals [OF perm, of "\<lambda>j. rs ! j"] by (elim exE conjE)
  have id: "distinct [0..<?K]" "set [0..<?K] = {0..<?K}" by simp_all
  obtain rd0 where c0: "simuSeason_collect (map (\<lambda>j. [(j, rs ! j)]) [0..<?K]) ?K = Some rd0"
    and l0: "\<forall>j < ?K. dict_get rd0 j = Inr (rs ! j)"
    using collect_arrivals [OF id, of "\<lambda>j. rs ! j"] by (elim exE conjE)
  have h: "\<forall>j \<in> set [0..<?K]. \<exists>r. dict_get rd j = Inr r \<and>
             (r = [] \<or> (distinct (dict_keys r) \<and> set (dict_keys r) = KS))"
  proof
    fix j
    assume "j \<in> set [0..<?K]"
    then have j: "j < ?K" by simp
    then have "rs ! j \<in> set rs" by simp
    then have "rs ! j = [] \<or> (distinct (dict_keys (rs ! j)) \<and> set (dict_keys (rs ! j)) = KS)"
      using ur by blast
    then show "\<exists>r. dict_get rd j = Inr r \<and>
             (r = [] \<or> (distinct (dict_keys r) \<and> set (dict_keys r) = KS))"
      using l j by simp
  qed
  obtain m where m: "simuSeason_merge [0..<?K] rd store = Inr m"
    and v: "\<forall>k. acc_vals m k =
               acc_vals store k @ concat (map (\<lambda>j. acc_vals (acc_vals rd j) k) [0..<?K])"
    using simuSeason_merge_vals [OF h us] by (elim exE conjE)
  have "\<forall>j \<in> set [0..<?K]. acc_vals rd j = rs ! j"
    using l by (simp add: acc_vals_def)
  then have "\<And>k. map (\<lambda>j. acc_vals (acc_vals rd j) k) [0..<?K] = map (\<lambda>j. acc_vals (rs ! j) k) [0..<?K]"
    by (simp only: map_eq_conv) simp
  moreover have "\<And>k. map (\<lambda>j. acc_vals (rs ! j) k) [0..<?K] = map (\<lambda>r. acc_vals r k) rs"
    by (rule map_index_upt)
  ultimately have v': "\<forall>k. acc_vals m k = acc_vals store k @ concat (map (\<lambda>r. acc_vals r k) rs)"
    using v by simp
  have "\<forall>j \<in> set [0..<?K]. dict_get rd0 j = dict_get rd j" using l l0 by simp
  then have "simuSeason_merge [0..<?K] rd0 store = simuSeason_merge [0..<?K] rd store"
    by (rule simuSeason_merge_cong)
  then have g0: "simuSeason_gather (map (\<lambda>j. [(j, rs ! j)]) [0..<?K]) ?K store = Some (Inr m)"
    using c0 m by (simp add: simuSeason_gather_def)
  have g: "simuSeason_gather (map (\<lambda>j. [(j, rs ! j)]) p) ?K store = Some (Inr m)"
    using c m by (simp add: simuSeason_gather_def)
  show ?thesis using g v' g0 by blast
qed


theorem simuSeason_gather_deterministic_witness:
  "simuSeason_gather (map (\<lambda>j. [(j, ex_results ! j)]) [2, 0, 1]) 3 [] =
     Some (Inr [(''SNID'', [PInt 11, PInt 12, PInt 11]),
                (''z'', [PFloat (1 / 10), PFloat (1 / 5), PFloat (3 / 10)])]) \<and>
   simuSeason_gather (map (\<lambda>j. [(j, ex_results ! j)]) [0..<3]) 3 [] =
     Some (Inr [(''SNID'', [PInt 11, PInt 12, PInt 11]),
                (''z'', [PFloat (1 / 10), PFloat (1 / 5), PFloat (3 / 10)])])"
proof -
  have len: "length ex_results = 3" by (simp add: ex_results_def)
  have p1: "distinct [2, 0, 1 :: nat]" by simp
  have p2: "set [2, 0, 1 :: nat] = {0..<length ex_results}" unfolding len by auto
  have ur: "\<forall>r \<in> set ex_results.
      r = [] \<or> (distinct (dict_keys r) \<and> set (dict_keys r) = {''SNID'', ''z''})"
    by (auto simp add: ex_results_def dict_keys_def)
  have us: "([] :: (string \<times> pyval list) list) = [] \<or>
      (distinct (dict_keys ([] :: (string \<times> pyval list) list)) \<and>
       set (dict_keys ([] :: (string \<times> pyval list) list)) = {''SNID'', ''z''})"
    by simp
  have e: "simuSeason_gather (map (\<lambda>j. [(j, ex_results ! j)]) [2, 0, 1]) 3 [] =
     Some (Inr [(''SNID'', [PInt 11, PInt 12, PInt 11]),
                (''z'', [PFloat (1 / 10), PFloat (1 / 5), PFloat (3 / 10)])])"
    by code_simp
  obtain m where
    a: "simuSeason_gather (map (\<lambda>j. [(j, ex_results ! j)]) [2, 0, 1]) (length ex_results) [] = Some (Inr m)"
    and b: "simuSeason_gather (map (\<lambda>j. [(j, ex_results ! j)]) [0..<length ex_results])
              (length ex_results) [] = Some (Inr m)"
    using simuSeason_gather_deterministic [OF p1 p2 ur us] by (elim exE conjE)
  have "m = [(''SNID'', [PInt 11, PInt 12, PInt 11]),
             (''z'', [PFloat (1 / 10), PFloat (1 / 5), PFloat (3 / 10)])]"
    using a e unfolding len by simp
  then have "simuSeason_gather (map (\<lambda>j. [(j, ex_results ! j)]) [0..<3]) 3 [] =
     Some (Inr [(''SNID'', [PInt 11, PInt 12, PInt 11]),
                (''z'', [PFloat (1 / 10), PFloat (1 / 5), PFloat (3 / 10)])])"
    using b unfolding len by simp
  with e show ?thesis by (intro conjI)
qed

end
